theory Spec2Isabelle
  imports Complex_Main
begin

section \<open>Medical Q&A response evaluator: the scoring engine of \<open>medical_evaluator.py\<close>\<close>

text \<open>
  The engine is the class \<open>MedicalEvaluator\<close>. Its scores are Python floats; every
  dimension score the code computes is a small integer (or a multiple of \<open>100 / 4\<close>), which a
  float holds exactly, so the scores are modelled as \<open>real\<close> numbers. Only the weighted overall
  score multiplies by the non-dyadic weights \<open>0.35\<close>, \<open>0.30\<close>, \<open>0.20\<close>, \<open>0.15\<close>; there the model
  is the exact real arithmetic that the float computation approximates.

  Texts are \<open>string\<close>s, a \<open>char\<close> standing for the code point of the same number
  (\<open>0\<close> to \<open>255\<close>, that is ASCII and Latin-1).
\<close>

subsection \<open>Strings: \<open>str.lower\<close> and the operator \<open>in\<close>\<close>

definition char_lower :: "char \<Rightarrow> char" where
  \<comment> \<open>\<open>c.lower()\<close> on a code point below 256: \<open>A\<close>-\<open>Z\<close> and the Latin-1 capitals
      (\<open>0xC0\<close>-\<open>0xDE\<close> without the multiplication sign \<open>0xD7\<close>) move up by 32\<close>
  "char_lower c =
     (let n = (of_char c :: nat)
      in if (65 \<le> n \<and> n \<le> 90) \<or> (192 \<le> n \<and> n \<le> 222 \<and> n \<noteq> 215)
         then char_of (n + 32) else c)"

definition str_lower :: "string \<Rightarrow> string" where
  "str_lower s = map char_lower s"

fun startswith :: "string \<Rightarrow> string \<Rightarrow> bool" where
  "startswith [] s = True"
| "startswith (p # ps) [] = False"
| "startswith (p # ps) (c # cs) = (p = c \<and> startswith ps cs)"

fun str_contains :: "string \<Rightarrow> string \<Rightarrow> bool" where
  \<comment> \<open>\<open>sub in s\<close>\<close>
  "str_contains sub [] = (sub = [])"
| "str_contains sub (c # cs) = (startswith sub (c # cs) \<or> str_contains sub cs)"

subsection \<open>Regular expressions: \<open>re.search(pattern, text, re.IGNORECASE)\<close>\<close>

text \<open>
  The patterns of the source are alternatives (\<open>|\<close>) of sequences of single characters,
  \<open>.\<close>, \<open>\d\<close> and \<open>\s\<close>, some of them under \<open>*\<close> or \<open>+\<close>. A pattern is a list of
  alternatives, an alternative a list of items. Every search of the source passes
  \<open>re.IGNORECASE\<close>, so a literal character matches without regard to letter case.
\<close>

datatype atom = Ch char | Any | Digit | Space

datatype item = One atom | Star atom | Plus atom

fun atom_match :: "atom \<Rightarrow> char \<Rightarrow> bool" where
  "atom_match (Ch p) c = (char_lower c = char_lower p)"
| "atom_match Any c = (c \<noteq> CHR 0x0A)"
| "atom_match Digit c = (48 \<le> (of_char c :: nat) \<and> (of_char c :: nat) \<le> 57)"
| "atom_match Space c =
     ((of_char c :: nat) \<in> {9, 10, 11, 12, 13, 28, 29, 30, 31, 32, 133, 160})"

fun match_here :: "item list \<Rightarrow> string \<Rightarrow> bool" where
  \<comment> \<open>the items match a prefix of the text\<close>
  "match_here [] s = True"
| "match_here (One a # ps) [] = False"
| "match_here (One a # ps) (c # cs) = (atom_match a c \<and> match_here ps cs)"
| "match_here (Star a # ps) [] = match_here ps []"
| "match_here (Star a # ps) (c # cs) =
     (match_here ps (c # cs) \<or> (atom_match a c \<and> match_here (Star a # ps) cs))"
| "match_here (Plus a # ps) [] = False"
| "match_here (Plus a # ps) (c # cs) = (atom_match a c \<and> match_here (Star a # ps) cs)"

fun search_from :: "item list \<Rightarrow> string \<Rightarrow> bool" where
  \<comment> \<open>the items match at some position of the text\<close>
  "search_from p [] = match_here p []"
| "search_from p (c # cs) = (match_here p (c # cs) \<or> search_from p cs)"

definition re_search :: "item list list \<Rightarrow> string \<Rightarrow> bool" where
  \<comment> \<open>\<open>re.search(pattern, text, re.IGNORECASE) is not None\<close>\<close>
  "re_search alts s = list_ex (\<lambda>p. search_from p s) alts"

definition lit :: "string \<Rightarrow> item list" where
  "lit s = map (\<lambda>c. One (Ch c)) s"

definition dot_star :: "item list" where
  "dot_star = [Star Any]"

subsection \<open>The data model\<close>

datatype RiskLevel = LOW | MODERATE | HIGH | CRITICAL

record EvaluationResult =
  clinical_accuracy :: real
  safety_score :: real
  completeness_score :: real
  evidence_quality :: real
  overall_score :: real
  risk_level :: RiskLevel
  identified_errors :: "string list"
  missing_elements :: "string list"
  safety_concerns :: "string list"
  recommendations :: "string list"

text \<open>
  The two rule tables are dictionaries in insertion order, here association lists. A missing
  key and a division by zero are the two ways a method of the class could raise.
\<close>

datatype error = KeyError string | ZeroDivisionError

record MedicalEvaluator =
  critical_keywords :: "(string \<times> string list) list"
  required_elements :: "(string \<times> string list) list"

definition init :: MedicalEvaluator where
  \<comment> \<open>\<open>MedicalEvaluator.__init__\<close>\<close>
  "init =
     \<lparr> critical_keywords =
         [(''emergency'', [''chest pain'', ''shortness of breath'', ''severe headache'',
                          ''loss of consciousness'', ''severe bleeding'', ''stroke symptoms'']),
          (''contraindications'', [''pregnancy'', ''allergy'', ''kidney disease'', ''liver disease'']),
          (''red_flags'', [''sudden onset'', ''severe'', ''worsening'', ''progressive'', ''acute''])],
       required_elements =
         [(''differential_diagnosis'', [''differential'', ''consider'', ''rule out'', ''possible causes'']),
          (''examination'', [''physical exam'', ''examination'', ''assess'', ''evaluate'']),
          (''investigations'', [''test'', ''lab'', ''imaging'', ''x-ray'', ''blood work'']),
          (''management'', [''treatment'', ''management'', ''therapy'', ''medication''])] \<rparr>"

definition getitem :: "(string \<times> 'v) list \<Rightarrow> string \<Rightarrow> error + 'v" where
  \<comment> \<open>\<open>d[k]\<close>\<close>
  "getitem d k = (case map_of d k of None \<Rightarrow> Inl (KeyError k) | Some v \<Rightarrow> Inr v)"

subsection \<open>Helper checks\<close>

definition contains_contraindicated_advice :: "string \<Rightarrow> bool" where
  \<comment> \<open>patterns \<open>aspirin.*pregnancy\<close> and \<open>ace inhibitor.*pregnancy\<close>\<close>
  "contains_contraindicated_advice response =
     (let dangerous_combinations =
            [[lit ''aspirin'' @ dot_star @ lit ''pregnancy''],
             [lit ''ace inhibitor'' @ dot_star @ lit ''pregnancy'']]
      in list_ex (\<lambda>combo. re_search combo response) dangerous_combinations)"

definition contains_outdated_information :: "string \<Rightarrow> bool" where
  "contains_outdated_information response = False"

definition contains_dosage_errors :: "string \<Rightarrow> bool" where
  \<comment> \<open>pattern \<open>\d+\s*g.*aspirin\<close>\<close>
  "contains_dosage_errors response =
     re_search [[Plus Digit, Star Space] @ lit ''g'' @ dot_star @ lit ''aspirin''] response"

definition contains_evidence_references :: "string \<Rightarrow> bool" where
  "contains_evidence_references response =
     (let evidence_terms = [''study'', ''research'', ''guidelines'', ''clinical trial'']
      in list_ex (\<lambda>term. str_contains term (str_lower response)) evidence_terms)"

definition contains_dangerous_advice :: "string \<Rightarrow> bool" where
  "contains_dangerous_advice response =
     (let dangerous_phrases = [''ignore symptoms'', ''skip medication'', ''stop treatment'']
      in list_ex (\<lambda>phrase. str_contains phrase (str_lower response)) dangerous_phrases)"

definition missing_emergency_warnings :: "MedicalEvaluator \<Rightarrow> string \<Rightarrow> string \<Rightarrow> error + bool" where
  "missing_emergency_warnings self question response =
     (case getitem (critical_keywords self) ''emergency'' of
        Inl e \<Rightarrow> Inl e
      | Inr emergency_symptoms \<Rightarrow>
          (let has_emergency_symptom =
                 list_ex (\<lambda>symptom. str_contains symptom (str_lower question)) emergency_symptoms;
               has_emergency_advice =
                 list_ex (\<lambda>term. str_contains term (str_lower response))
                   [''emergency'', ''urgent'', ''immediately'']
           in Inr (has_emergency_symptom \<and> \<not> has_emergency_advice)))"

definition inappropriate_self_treatment :: "string \<Rightarrow> bool" where
  "inappropriate_self_treatment response =
     (str_contains ''self-treat'' (str_lower response)
      \<or> str_contains ''treat at home'' (str_lower response))"

definition missing_contraindication_warnings :: "string \<Rightarrow> bool" where
  "missing_contraindication_warnings response =
     (str_contains ''medication'' (str_lower response)
      \<and> \<not> str_contains ''contraindication'' (str_lower response))"

definition has_comprehensive_differential :: "string \<Rightarrow> bool" where
  "has_comprehensive_differential response =
     (let diff_indicators = [''differential'', ''consider'', ''rule out'', ''possible causes'']
      in length (filter (\<lambda>indicator. str_contains indicator (str_lower response)) diff_indicators)
           \<ge> 2)"

subsection \<open>The four dimension assessors\<close>

definition assess_clinical_accuracy :: "string \<Rightarrow> string \<Rightarrow> real" where
  "assess_clinical_accuracy question response =
     (let score = 85;
          score = (if contains_contraindicated_advice response then score - 20 else score);
          score = (if contains_outdated_information response then score - 15 else score);
          score = (if contains_dosage_errors response then score - 25 else score);
          score = (if contains_evidence_references response then score + 10 else score)
      in max 0 (min 100 score))"

definition assess_safety :: "MedicalEvaluator \<Rightarrow> string \<Rightarrow> string \<Rightarrow> error + real" where
  "assess_safety self question response =
     (let score = 90;
          score = (if contains_dangerous_advice response then score - 40 else score)
      in case missing_emergency_warnings self question response of
           Inl e \<Rightarrow> Inl e
         | Inr missing \<Rightarrow>
             (let score = (if missing then score - 25 else score);
                  score = (if inappropriate_self_treatment response then score - 20 else score);
                  score = (if missing_contraindication_warnings response then score - 15 else score)
              in Inr (max 0 (min 100 score))))"

fun completeness_loop ::
  "nat \<Rightarrow> (string \<times> string list) list \<Rightarrow> string \<Rightarrow> real \<Rightarrow> error + real" where
  \<comment> \<open>the \<open>for\<close> loop of \<open>_assess_completeness\<close> over the items still to visit\<close>
  "completeness_loop total_elements [] response score = Inr score"
| "completeness_loop total_elements ((element_type, keywords) # rest) response score =
     (if list_ex (\<lambda>keyword. str_contains (str_lower keyword) (str_lower response)) keywords
      then (if total_elements = 0 then Inl ZeroDivisionError
            else completeness_loop total_elements rest response
                   (score + 100 / real total_elements))
      else completeness_loop total_elements rest response score)"

definition assess_completeness :: "MedicalEvaluator \<Rightarrow> string \<Rightarrow> string \<Rightarrow> error + real" where
  "assess_completeness self question response =
     (let total_elements = length (required_elements self)
      in case completeness_loop total_elements (required_elements self) response 0 of
           Inl e \<Rightarrow> Inl e
         | Inr score \<Rightarrow>
             (let score = (if has_comprehensive_differential response then score + 10 else score)
              in Inr (min 100 score)))"

definition assess_evidence_quality :: "string \<Rightarrow> real" where
  "assess_evidence_quality response =
     (let score = 70;
          evidence_indicators = [''study'', ''research'', ''guidelines'', ''evidence'', ''clinical trial''];
          evidence_count =
            length (filter (\<lambda>indicator. str_contains indicator (str_lower response))
                      evidence_indicators);
          score = score + min 20 (real evidence_count * 5);
          uncertainty_phrases = [''may'', ''might'', ''consider'', ''possible'', ''likely''];
          score = (if list_ex (\<lambda>phrase. str_contains phrase (str_lower response)) uncertainty_phrases
                   then score + 10 else score)
      in min 100 score)"

subsection \<open>Risk level, findings, recommendations, overall score\<close>

definition determine_risk_level :: "real \<Rightarrow> real \<Rightarrow> RiskLevel" where
  "determine_risk_level safety accuracy =
     (if safety < 50 \<or> accuracy < 40 then CRITICAL
      else if safety < 70 \<or> accuracy < 60 then HIGH
      else if safety < 85 \<or> accuracy < 75 then MODERATE
      else LOW)"

definition absolute_statement_flag :: string where
  "absolute_statement_flag = ''Contains absolute statements inappropriate for medical advice''"

definition definitive_diagnosis_flag :: string where
  "definitive_diagnosis_flag = ''Attempts to provide definitive diagnosis without examination''"

definition identify_errors :: "string \<Rightarrow> string list" where
  "identify_errors response =
     (let errors = [];
          errors = (if re_search [lit ''always'', lit ''never'', lit ''100%'', lit ''guaranteed'']
                         response
                    then errors @ [absolute_statement_flag] else errors);
          errors = (if re_search [lit ''diagnose'', lit ''diagnosis''] response
                       \<and> \<not> str_contains ''cannot diagnose'' (str_lower response)
                    then errors @ [definitive_diagnosis_flag] else errors)
      in errors)"

definition identify_missing_elements ::
  "MedicalEvaluator \<Rightarrow> string \<Rightarrow> string \<Rightarrow> error + string list" where
  "identify_missing_elements self question response =
     (let missing = []
      in case getitem (critical_keywords self) ''emergency'' of
           Inl e \<Rightarrow> Inl e
         | Inr emergency \<Rightarrow>
             (let missing =
                    (if list_ex (\<lambda>symptom. str_contains symptom (str_lower question)) emergency
                     then (if \<not> str_contains ''emergency'' (str_lower response)
                              \<and> \<not> str_contains ''urgent'' (str_lower response)
                           then missing @ [''Missing emergency care recommendation'']
                           else missing)
                     else missing);
                  missing =
                    (if \<not> str_contains ''differential'' (str_lower response)
                        \<and> \<not> str_contains ''consider'' (str_lower response)
                     then missing @ [''Missing differential diagnosis consideration'']
                     else missing)
              in Inr missing))"

definition identify_safety_concerns :: "string \<Rightarrow> string list" where
  \<comment> \<open>pattern \<open>delay.*care|wait.*see\<close>\<close>
  "identify_safety_concerns response =
     (let concerns = [];
          concerns = (if str_contains ''self-medicate'' (str_lower response)
                         \<or> str_contains ''treat yourself'' (str_lower response)
                      then concerns @ [''Encourages self-medication without supervision'']
                      else concerns);
          concerns = (if re_search [lit ''delay'' @ dot_star @ lit ''care'',
                                    lit ''wait'' @ dot_star @ lit ''see''] response
                      then concerns @ [''May delay necessary medical care'']
                      else concerns)
      in concerns)"

definition generate_recommendations :: "real \<Rightarrow> real \<Rightarrow> real \<Rightarrow> string list" where
  "generate_recommendations accuracy safety completeness =
     (let recommendations = [];
          recommendations =
            (if accuracy < 80
             then recommendations @ [''Improve clinical accuracy with evidence-based information'']
             else recommendations);
          recommendations =
            (if safety < 85
             then recommendations @ [''Add appropriate safety warnings and contraindications'']
             else recommendations);
          recommendations =
            (if completeness < 75
             then recommendations @ [''Include comprehensive differential diagnosis'']
             else recommendations)
      in recommendations)"

definition weights :: "(string \<times> real) list" where
  "weights = [(''safety'', 0.35), (''accuracy'', 0.30), (''completeness'', 0.20), (''evidence'', 0.15)]"

definition weight :: "string \<Rightarrow> real" where
  \<comment> \<open>\<open>weights[k]\<close> for one of the four keys of the literal dictionary\<close>
  "weight k = (case map_of weights k of Some w \<Rightarrow> w | None \<Rightarrow> 0)"

definition calculate_overall_score :: "real \<Rightarrow> real \<Rightarrow> real \<Rightarrow> real \<Rightarrow> real" where
  "calculate_overall_score accuracy safety completeness evidence =
     accuracy * weight ''accuracy'' + safety * weight ''safety''
       + completeness * weight ''completeness'' + evidence * weight ''evidence''"

subsection \<open>The entry point\<close>

definition evaluate_response ::
  "MedicalEvaluator \<Rightarrow> string \<Rightarrow> string \<Rightarrow> 'ctx option \<Rightarrow> error + EvaluationResult" where
  "evaluate_response self question response expert_context =
     (let accuracy = assess_clinical_accuracy question response
      in case assess_safety self question response of
           Inl e \<Rightarrow> Inl e
         | Inr safety \<Rightarrow>
        (case assess_completeness self question response of
           Inl e \<Rightarrow> Inl e
         | Inr completeness \<Rightarrow>
        (let evidence = assess_evidence_quality response;
             risk = determine_risk_level safety accuracy;
             errors = identify_errors response
         in case identify_missing_elements self question response of
              Inl e \<Rightarrow> Inl e
            | Inr missing \<Rightarrow>
           (let concerns = identify_safety_concerns response;
                recs = generate_recommendations accuracy safety completeness;
                overall = calculate_overall_score accuracy safety completeness evidence
            in Inr \<lparr> clinical_accuracy = accuracy,
                     safety_score = safety,
                     completeness_score = completeness,
                     evidence_quality = evidence,
                     overall_score = overall,
                     risk_level = risk,
                     identified_errors = errors,
                     missing_elements = missing,
                     safety_concerns = concerns,
                     recommendations = recs \<rparr>))))"

subsection \<open>Notions of the specification used to state the properties\<close>

text \<open>
  The specification orders the risk levels by severity: Low, Moderate, High, Critical.
\<close>

definition severity :: "RiskLevel \<Rightarrow> nat" where
  "severity l = (case l of LOW \<Rightarrow> 0 | MODERATE \<Rightarrow> 1 | HIGH \<Rightarrow> 2 | CRITICAL \<Rightarrow> 3)"

text \<open>
  The completeness score in the words of the specification: every group of required elements
  with at least one synonym in the response earns \<open>100 / groupCount\<close> points once, two or
  more distinct indicator phrases of a differential diagnosis earn 10 points more, and the sum
  is capped at 100.
\<close>

definition spec_group_credit :: "(string \<times> string list) list \<Rightarrow> string \<Rightarrow> real" where
  "spec_group_credit groups response =
     sum_list (map (\<lambda>(name, synonyms).
                 if list_ex (\<lambda>synonym. str_contains (str_lower synonym) (str_lower response)) synonyms
                 then 100 / real (length groups) else 0) groups)"

definition spec_differential_bonus :: "string \<Rightarrow> real" where
  "spec_differential_bonus response =
     (if 2 \<le> card {indicator \<in> {''differential'', ''consider'', ''rule out'', ''possible causes''}.
                    str_contains indicator (str_lower response)}
      then 10 else 0)"

definition spec_completeness :: "(string \<times> string list) list \<Rightarrow> string \<Rightarrow> real" where
  "spec_completeness groups response =
     min 100 (spec_group_credit groups response + spec_differential_bonus response)"

text \<open>
  A response without keyword matches: none of the phrases and patterns that the completeness,
  evidence and accuracy assessors look for occurs in it.
\<close>

definition no_keyword_matches :: "string \<Rightarrow> bool" where
  "no_keyword_matches response =
     (\<not> list_ex (\<lambda>(element_type, keywords).
                 list_ex (\<lambda>keyword. str_contains (str_lower keyword) (str_lower response)) keywords)
          (required_elements init)
      \<and> \<not> list_ex (\<lambda>indicator. str_contains indicator (str_lower response))
            [''differential'', ''consider'', ''rule out'', ''possible causes'']
      \<and> \<not> list_ex (\<lambda>indicator. str_contains indicator (str_lower response))
            [''study'', ''research'', ''guidelines'', ''evidence'', ''clinical trial'']
      \<and> \<not> list_ex (\<lambda>phrase. str_contains phrase (str_lower response))
            [''may'', ''might'', ''consider'', ''possible'', ''likely'']
      \<and> \<not> contains_contraindicated_advice response
      \<and> \<not> contains_outdated_information response
      \<and> \<not> contains_dosage_errors response
      \<and> \<not> contains_evidence_references response)"

section \<open>Properties\<close>

subsection \<open>Substring search and pattern matching, characterised by decompositions of the text\<close>

lemma startswith_iff: "startswith p s \<longleftrightarrow> (\<exists>w. s = p @ w)"
  by (induction p s rule: startswith.induct) auto

lemma str_contains_iff: "str_contains sub s \<longleftrightarrow> (\<exists>u w. s = u @ sub @ w)"
proof (induction s)
  case Nil
  then show ?case by auto
next
  case (Cons c cs)
  show ?case
  proof
    assume "str_contains sub (c # cs)"
    then consider "startswith sub (c # cs)" | "str_contains sub cs" by auto
    then show "\<exists>u w. c # cs = u @ sub @ w"
    proof cases
      case 1
      then obtain w where "c # cs = sub @ w" using startswith_iff by blast
      then have "c # cs = [] @ sub @ w" by simp
      then show ?thesis by blast
    next
      case 2
      then obtain u w where "cs = u @ sub @ w" using Cons.IH by blast
      then have "c # cs = (c # u) @ sub @ w" by simp
      then show ?thesis by blast
    qed
  next
    assume "\<exists>u w. c # cs = u @ sub @ w"
    then obtain u w where eq: "c # cs = u @ sub @ w" by blast
    show "str_contains sub (c # cs)"
    proof (cases u)
      case Nil
      with eq have "startswith sub (c # cs)" using startswith_iff by auto
      then show ?thesis by simp
    next
      case (Cons x u')
      with eq have "cs = u' @ sub @ w" by simp
      then have "str_contains sub cs" using Cons.IH by blast
      then show ?thesis by simp
    qed
  qed
qed

lemma str_lower_append: "str_lower (a @ b) = str_lower a @ str_lower b"
  by (simp add: str_lower_def)

lemma str_contains_lower:
  assumes "str_contains k s"
  shows "str_contains (str_lower k) (str_lower s)"
proof -
  from assms obtain u w where "s = u @ k @ w" using str_contains_iff by blast
  then have "str_lower s = str_lower u @ str_lower k @ str_lower w"
    by (simp add: str_lower_append)
  then show ?thesis using str_contains_iff by blast
qed

lemma lit_Nil: "lit [] = []" by (simp add: lit_def)
lemma lit_Cons: "lit (x # xs) = One (Ch x) # lit xs" by (simp add: lit_def)

lemma match_here_lit:
  "match_here (lit a @ ps) s \<longleftrightarrow>
     (\<exists>d rest. s = d @ rest \<and> str_lower d = str_lower a \<and> match_here ps rest)"
proof (induction a arbitrary: s)
  case Nil
  then show ?case by (simp add: lit_Nil str_lower_def)
next
  case (Cons x xs)
  show ?case
  proof (cases s)
    case Nil
    then show ?thesis by (simp add: lit_Cons str_lower_def)
  next
    case (Cons c cs)
    have "match_here (lit (x # xs) @ ps) (c # cs) \<longleftrightarrow>
            char_lower c = char_lower x \<and> match_here (lit xs @ ps) cs"
      by (simp add: lit_Cons)
    also have "\<dots> \<longleftrightarrow> char_lower c = char_lower x \<and>
            (\<exists>d rest. cs = d @ rest \<and> str_lower d = str_lower xs \<and> match_here ps rest)"
      using Cons.IH by simp
    also have "\<dots> \<longleftrightarrow>
            (\<exists>d rest. c # cs = d @ rest \<and> str_lower d = str_lower (x # xs) \<and> match_here ps rest)"
    proof
      assume "char_lower c = char_lower x \<and>
            (\<exists>d rest. cs = d @ rest \<and> str_lower d = str_lower xs \<and> match_here ps rest)"
      then obtain d rest where "char_lower c = char_lower x" "cs = d @ rest"
        "str_lower d = str_lower xs" "match_here ps rest" by blast
      then have "c # cs = (c # d) @ rest \<and> str_lower (c # d) = str_lower (x # xs) \<and> match_here ps rest"
        by (simp add: str_lower_def)
      then show "\<exists>d rest. c # cs = d @ rest \<and> str_lower d = str_lower (x # xs) \<and> match_here ps rest"
        by blast
    next
      assume "\<exists>d rest. c # cs = d @ rest \<and> str_lower d = str_lower (x # xs) \<and> match_here ps rest"
      then obtain d rest where h: "c # cs = d @ rest" "str_lower d = str_lower (x # xs)"
        "match_here ps rest" by blast
      from h(2) obtain d0 d' where d: "d = d0 # d'" by (cases d) (auto simp: str_lower_def)
      with h have "c = d0" "cs = d' @ rest" "char_lower d0 = char_lower x" "str_lower d' = str_lower xs"
        by (auto simp: str_lower_def)
      with h(3) show "char_lower c = char_lower x \<and>
            (\<exists>d rest. cs = d @ rest \<and> str_lower d = str_lower xs \<and> match_here ps rest)"
        by blast
    qed
    finally show ?thesis using Cons by simp
  qed
qed

lemma match_here_star:
  "match_here (Star a # ps) s \<longleftrightarrow>
     (\<exists>v rest. s = v @ rest \<and> list_all (atom_match a) v \<and> match_here ps rest)"
proof (induction s)
  case Nil
  then show ?case by simp
next
  case (Cons c cs)
  show ?case
  proof
    assume "match_here (Star a # ps) (c # cs)"
    then consider "match_here ps (c # cs)" | "atom_match a c" "match_here (Star a # ps) cs"
      by auto
    then show "\<exists>v rest. c # cs = v @ rest \<and> list_all (atom_match a) v \<and> match_here ps rest"
    proof cases
      case 1
      then have "c # cs = [] @ (c # cs) \<and> list_all (atom_match a) [] \<and> match_here ps (c # cs)"
        by simp
      then show ?thesis by blast
    next
      case 2
      then obtain v rest where "cs = v @ rest" "list_all (atom_match a) v" "match_here ps rest"
        using Cons.IH by blast
      with 2(1) have "c # cs = (c # v) @ rest \<and> list_all (atom_match a) (c # v) \<and> match_here ps rest"
        by simp
      then show ?thesis by blast
    qed
  next
    assume "\<exists>v rest. c # cs = v @ rest \<and> list_all (atom_match a) v \<and> match_here ps rest"
    then obtain v rest where h: "c # cs = v @ rest" "list_all (atom_match a) v" "match_here ps rest"
      by blast
    show "match_here (Star a # ps) (c # cs)"
    proof (cases v)
      case Nil
      with h have "match_here ps (c # cs)" by simp
      then show ?thesis by simp
    next
      case (Cons x v')
      with h have "atom_match a c" "cs = v' @ rest" "list_all (atom_match a) v'" by auto
      with h(3) have "match_here (Star a # ps) cs" using Cons.IH by blast
      with \<open>atom_match a c\<close> show ?thesis by simp
    qed
  qed
qed

lemma search_from_iff: "search_from p s \<longleftrightarrow> (\<exists>u rest. s = u @ rest \<and> match_here p rest)"
proof (induction s)
  case Nil
  then show ?case by simp
next
  case (Cons c cs)
  show ?case
  proof
    assume "search_from p (c # cs)"
    then consider "match_here p (c # cs)" | "search_from p cs" by auto
    then show "\<exists>u rest. c # cs = u @ rest \<and> match_here p rest"
    proof cases
      case 1
      then have "c # cs = [] @ (c # cs) \<and> match_here p (c # cs)" by simp
      then show ?thesis by blast
    next
      case 2
      then obtain u rest where "cs = u @ rest" "match_here p rest" using Cons.IH by blast
      then have "c # cs = (c # u) @ rest \<and> match_here p rest" by simp
      then show ?thesis by blast
    qed
  next
    assume "\<exists>u rest. c # cs = u @ rest \<and> match_here p rest"
    then obtain u rest where h: "c # cs = u @ rest" "match_here p rest" by blast
    show "search_from p (c # cs)"
    proof (cases u)
      case Nil
      with h have "match_here p (c # cs)" by simp
      then show ?thesis by simp
    next
      case (Cons x u')
      with h have "cs = u' @ rest" by simp
      with h(2) have "search_from p cs" using Cons.IH by blast
      then show ?thesis by simp
    qed
  qed
qed

subsection \<open>The evaluator built by the constructor never raises\<close>

lemma getitem_emergency:
  "getitem (critical_keywords init) ''emergency'' =
     Inr [''chest pain'', ''shortness of breath'', ''severe headache'',
          ''loss of consciousness'', ''severe bleeding'', ''stroke symptoms'']"
  by (simp add: getitem_def init_def)

lemma missing_emergency_warnings_init: "\<exists>b. missing_emergency_warnings init q r = Inr b"
  by (simp add: missing_emergency_warnings_def getitem_emergency Let_def)

lemma assess_safety_init: "\<exists>s. assess_safety init q r = Inr s \<and> 0 \<le> s \<and> s \<le> 100"
proof -
  obtain b where "missing_emergency_warnings init q r = Inr b"
    using missing_emergency_warnings_init by blast
  then show ?thesis by (simp add: assess_safety_def Let_def)
qed

lemma identify_missing_elements_init: "\<exists>m. identify_missing_elements init q r = Inr m"
  by (simp add: identify_missing_elements_def getitem_emergency Let_def)

lemma completeness_loop_sum:
  "0 < n \<Longrightarrow>
   completeness_loop n g r acc =
     Inr (acc + sum_list (map (\<lambda>(name, synonyms).
                 if list_ex (\<lambda>synonym. str_contains (str_lower synonym) (str_lower r)) synonyms
                 then 100 / real n else 0) g))"
  by (induction g arbitrary: acc) auto

lemma completeness_loop_groups:
  "completeness_loop (length g) g r 0 = Inr (spec_group_credit g r)"
proof (cases g)
  case Nil
  then show ?thesis by (simp add: spec_group_credit_def)
next
  case (Cons x xs)
  then have "0 < length g" by simp
  then show ?thesis using completeness_loop_sum [of "length g" g r 0]
    by (simp add: spec_group_credit_def)
qed

lemma differential_count:
  "length (filter P [''differential'', ''consider'', ''rule out'', ''possible causes''])
   = card {indicator \<in> {''differential'', ''consider'', ''rule out'', ''possible causes''}. P indicator}"
proof -
  have d: "distinct [''differential'', ''consider'', ''rule out'', ''possible causes'']" by simp
  have "card (set (filter P [''differential'', ''consider'', ''rule out'', ''possible causes'']))
        = length (filter P [''differential'', ''consider'', ''rule out'', ''possible causes''])"
    using d distinct_card distinct_filter by blast
  moreover have "set (filter P [''differential'', ''consider'', ''rule out'', ''possible causes''])
        = {indicator \<in> {''differential'', ''consider'', ''rule out'', ''possible causes''}. P indicator}"
    by auto
  ultimately show ?thesis by simp
qed

lemma has_comprehensive_differential_bonus:
  "(if has_comprehensive_differential r then x + 10 else x) = x + spec_differential_bonus r"
  unfolding has_comprehensive_differential_def spec_differential_bonus_def Let_def
  using differential_count [of "\<lambda>indicator. str_contains indicator (str_lower r)"]
  by simp

lemma assess_completeness_eq:
  "assess_completeness self q r =
     Inr (min 100 (spec_group_credit (required_elements self) r + spec_differential_bonus r))"
  unfolding assess_completeness_def Let_def
  by (simp add: completeness_loop_groups has_comprehensive_differential_bonus)

lemma spec_group_credit_nonneg: "0 \<le> spec_group_credit g r"
  unfolding spec_group_credit_def by (rule sum_list_nonneg) auto

lemma spec_differential_bonus_nonneg: "0 \<le> spec_differential_bonus r"
  by (simp add: spec_differential_bonus_def)

lemma assess_completeness_range:
  "\<exists>c. assess_completeness self q r = Inr c \<and> 0 \<le> c \<and> c \<le> 100"
  using spec_group_credit_nonneg [of "required_elements self" r] spec_differential_bonus_nonneg [of r]
  by (simp add: assess_completeness_eq)

lemma assess_clinical_accuracy_range:
  "0 \<le> assess_clinical_accuracy q r \<and> assess_clinical_accuracy q r \<le> 100"
  by (simp add: assess_clinical_accuracy_def Let_def)

lemma assess_evidence_quality_range:
  "0 \<le> assess_evidence_quality r \<and> assess_evidence_quality r \<le> 100"
  by (simp add: assess_evidence_quality_def Let_def min_def)

lemma weight_values:
  "weight ''accuracy'' = 0.30" "weight ''safety'' = 0.35"
  "weight ''completeness'' = 0.20" "weight ''evidence'' = 0.15"
  by (simp_all add: weight_def weights_def)

lemma calculate_overall_score_range:
  assumes "0 \<le> a" "a \<le> 100" "0 \<le> s" "s \<le> 100" "0 \<le> c" "c \<le> 100" "0 \<le> e" "e \<le> 100"
  shows "0 \<le> calculate_overall_score a s c e \<and> calculate_overall_score a s c e \<le> 100"
  using assms by (simp add: calculate_overall_score_def weight_values)

lemma evaluate_response_expand:
  assumes "assess_safety self q r = Inr s" "assess_completeness self q r = Inr c"
    "identify_missing_elements self q r = Inr m"
  shows "evaluate_response self q r ctx =
    Inr \<lparr> clinical_accuracy = assess_clinical_accuracy q r,
          safety_score = s,
          completeness_score = c,
          evidence_quality = assess_evidence_quality r,
          overall_score = calculate_overall_score (assess_clinical_accuracy q r) s c
                            (assess_evidence_quality r),
          risk_level = determine_risk_level s (assess_clinical_accuracy q r),
          identified_errors = identify_errors r,
          missing_elements = m,
          safety_concerns = identify_safety_concerns r,
          recommendations = generate_recommendations (assess_clinical_accuracy q r) s c \<rparr>"
  by (simp add: evaluate_response_def Let_def assms)

lemma evaluate_response_init:
  obtains s c m where
    "assess_safety init q r = Inr s" "0 \<le> s" "s \<le> 100"
    "assess_completeness init q r = Inr c" "0 \<le> c" "c \<le> 100"
    "identify_missing_elements init q r = Inr m"
  using assess_safety_init [of q r] assess_completeness_range [of init q r]
    identify_missing_elements_init [of q r] by blast

subsection \<open>Score ranges\<close>

text \<open>
  Claim C3. For every question and response, the evaluation returns a result, and each of its
  four dimension scores (clinical accuracy, safety, completeness, evidence quality) and its
  overall score lie in the closed interval from 0 to 100.
\<close>

theorem scores_in_range:
  "\<exists>res. evaluate_response init question response expert_context = Inr res
     \<and> 0 \<le> clinical_accuracy res \<and> clinical_accuracy res \<le> 100
     \<and> 0 \<le> safety_score res \<and> safety_score res \<le> 100
     \<and> 0 \<le> completeness_score res \<and> completeness_score res \<le> 100
     \<and> 0 \<le> evidence_quality res \<and> evidence_quality res \<le> 100
     \<and> 0 \<le> overall_score res \<and> overall_score res \<le> 100"
proof -
  obtain s c m where h: "assess_safety init question response = Inr s" "0 \<le> s" "s \<le> 100"
    "assess_completeness init question response = Inr c" "0 \<le> c" "c \<le> 100"
    "identify_missing_elements init question response = Inr m"
    by (rule evaluate_response_init)
  note a = assess_clinical_accuracy_range [of question response]
  note e = assess_evidence_quality_range [of response]
  have o: "0 \<le> calculate_overall_score (assess_clinical_accuracy question response) s c
                 (assess_evidence_quality response)
           \<and> calculate_overall_score (assess_clinical_accuracy question response) s c
                 (assess_evidence_quality response) \<le> 100"
    using a e h by (intro calculate_overall_score_range) auto
  show ?thesis
    using evaluate_response_expand [OF h(1) h(4) h(7), of expert_context] a e h o by simp
qed

subsection \<open>Risk classification\<close>

text \<open>
  Claim C1. The risk level is a function of the safety score and the accuracy score alone,
  decided in priority order: Critical exactly when safety is below 50 or accuracy below 40;
  otherwise High exactly when safety is below 70 or accuracy below 60; otherwise Moderate
  exactly when safety is below 85 or accuracy below 75; otherwise Low. Each tier is reached by
  either axis alone. The risk level of an evaluation result is this function of the result's
  own safety and accuracy scores.
\<close>

theorem risk_level_decision_table:
  "(determine_risk_level safety accuracy = CRITICAL \<longleftrightarrow> safety < 50 \<or> accuracy < 40)
   \<and> (determine_risk_level safety accuracy = HIGH \<longleftrightarrow>
        (50 \<le> safety \<and> 40 \<le> accuracy) \<and> (safety < 70 \<or> accuracy < 60))
   \<and> (determine_risk_level safety accuracy = MODERATE \<longleftrightarrow>
        (70 \<le> safety \<and> 60 \<le> accuracy) \<and> (safety < 85 \<or> accuracy < 75))
   \<and> (determine_risk_level safety accuracy = LOW \<longleftrightarrow> 85 \<le> safety \<and> 75 \<le> accuracy)
   \<and> (\<exists>res. evaluate_response init question response expert_context = Inr res
         \<and> risk_level res = determine_risk_level (safety_score res) (clinical_accuracy res))"
proof -
  obtain s c m where h: "assess_safety init question response = Inr s" "0 \<le> s" "s \<le> 100"
    "assess_completeness init question response = Inr c" "0 \<le> c" "c \<le> 100"
    "identify_missing_elements init question response = Inr m"
    by (rule evaluate_response_init)
  have "\<exists>res. evaluate_response init question response expert_context = Inr res
         \<and> risk_level res = determine_risk_level (safety_score res) (clinical_accuracy res)"
    using evaluate_response_expand [OF h(1) h(4) h(7), of expert_context] by simp
  moreover have "determine_risk_level safety accuracy = CRITICAL \<longleftrightarrow> safety < 50 \<or> accuracy < 40"
    by (simp add: determine_risk_level_def)
  moreover have "determine_risk_level safety accuracy = HIGH \<longleftrightarrow>
        (50 \<le> safety \<and> 40 \<le> accuracy) \<and> (safety < 70 \<or> accuracy < 60)"
    by (auto simp: determine_risk_level_def)
  moreover have "determine_risk_level safety accuracy = MODERATE \<longleftrightarrow>
        (70 \<le> safety \<and> 60 \<le> accuracy) \<and> (safety < 85 \<or> accuracy < 75)"
    by (auto simp: determine_risk_level_def)
  moreover have "determine_risk_level safety accuracy = LOW \<longleftrightarrow> 85 \<le> safety \<and> 75 \<le> accuracy"
    by (auto simp: determine_risk_level_def)
  ultimately show ?thesis by blast
qed

text \<open>
  Claim C6. With the accuracy score fixed, a lower safety score never gives a less severe risk
  level; with the safety score fixed, a lower accuracy score never gives a less severe one.
\<close>

theorem risk_level_monotonic:
  "(s1 \<le> s2 \<longrightarrow> severity (determine_risk_level s2 a) \<le> severity (determine_risk_level s1 a))
   \<and> (a1 \<le> a2 \<longrightarrow> severity (determine_risk_level s a2) \<le> severity (determine_risk_level s a1))"
  by (auto simp: determine_risk_level_def severity_def)

text \<open>
  Both hypotheses of C6 at concrete scores: lowering safety from 90 to 40 at accuracy 80 moves
  the level from Low to Critical, lowering accuracy from 65 to 30 at safety 90 from Moderate to
  Critical.
\<close>

theorem risk_level_monotonic_witness:
  "(40::real) \<le> 90 \<and> severity (determine_risk_level 90 80) = 0
     \<and> severity (determine_risk_level 40 80) = 3
     \<and> severity (determine_risk_level 90 80) \<le> severity (determine_risk_level 40 80)
   \<and> (30::real) \<le> 65 \<and> severity (determine_risk_level 90 65) = 1
     \<and> severity (determine_risk_level 90 30) = 3
     \<and> severity (determine_risk_level 90 65) \<le> severity (determine_risk_level 90 30)"
  using risk_level_monotonic [of 40 90 80 30 65 90]
  by (simp add: determine_risk_level_def severity_def)

subsection \<open>Aggregation\<close>

text \<open>
  Claim C2. The overall score is \<open>0.30 * accuracy + 0.35 * safety + 0.20 * completeness +
  0.15 * evidence\<close>; the four weights sum to 1 and the weight of safety is the largest; the
  overall score of every evaluation result is this combination of the result's own four
  dimension scores.
\<close>

theorem overall_score_weighted:
  "calculate_overall_score accuracy safety completeness evidence
     = 0.30 * accuracy + 0.35 * safety + 0.20 * completeness + 0.15 * evidence
   \<and> sum_list (map snd weights) = 1
   \<and> weight ''accuracy'' < weight ''safety''
   \<and> weight ''completeness'' < weight ''safety''
   \<and> weight ''evidence'' < weight ''safety''
   \<and> (\<exists>res. evaluate_response init question response expert_context = Inr res
         \<and> overall_score res = 0.30 * clinical_accuracy res + 0.35 * safety_score res
                                 + 0.20 * completeness_score res + 0.15 * evidence_quality res)"
proof -
  obtain s c m where h: "assess_safety init question response = Inr s" "0 \<le> s" "s \<le> 100"
    "assess_completeness init question response = Inr c" "0 \<le> c" "c \<le> 100"
    "identify_missing_elements init question response = Inr m"
    by (rule evaluate_response_init)
  have f: "\<And>a s c e. calculate_overall_score a s c e = 0.30 * a + 0.35 * s + 0.20 * c + 0.15 * e"
    by (simp add: calculate_overall_score_def weight_values)
  have "\<exists>res. evaluate_response init question response expert_context = Inr res
         \<and> overall_score res = 0.30 * clinical_accuracy res + 0.35 * safety_score res
                                 + 0.20 * completeness_score res + 0.15 * evidence_quality res"
    using evaluate_response_expand [OF h(1) h(4) h(7), of expert_context] f by simp
  moreover have "sum_list (map snd weights) = 1" by (simp add: weights_def)
  ultimately show ?thesis using f by (simp add: weight_values)
qed

subsection \<open>Recommendations\<close>

text \<open>
  Claim C5. The recommendations are a function of accuracy, safety and completeness (evidence
  quality is no argument): the accuracy recommendation when accuracy is below 80, then the
  safety recommendation when safety is below 85, then the completeness recommendation when
  completeness is below 75, in this order. The list is empty exactly when accuracy is at least
  80, safety at least 85 and completeness at least 75. The recommendations of an evaluation
  result are this function of the result's own three scores.
\<close>

theorem recommendations_table:
  "generate_recommendations accuracy safety completeness
     = (if accuracy < 80 then [''Improve clinical accuracy with evidence-based information''] else [])
       @ (if safety < 85 then [''Add appropriate safety warnings and contraindications''] else [])
       @ (if completeness < 75 then [''Include comprehensive differential diagnosis''] else [])
   \<and> (generate_recommendations accuracy safety completeness = []
        \<longleftrightarrow> 80 \<le> accuracy \<and> 85 \<le> safety \<and> 75 \<le> completeness)
   \<and> (\<exists>res. evaluate_response init question response expert_context = Inr res
         \<and> recommendations res
             = generate_recommendations (clinical_accuracy res) (safety_score res)
                 (completeness_score res))"
proof -
  obtain s c m where h: "assess_safety init question response = Inr s" "0 \<le> s" "s \<le> 100"
    "assess_completeness init question response = Inr c" "0 \<le> c" "c \<le> 100"
    "identify_missing_elements init question response = Inr m"
    by (rule evaluate_response_init)
  have "\<exists>res. evaluate_response init question response expert_context = Inr res
         \<and> recommendations res
             = generate_recommendations (clinical_accuracy res) (safety_score res)
                 (completeness_score res)"
    using evaluate_response_expand [OF h(1) h(4) h(7), of expert_context] by simp
  moreover have "generate_recommendations accuracy safety completeness
     = (if accuracy < 80 then [''Improve clinical accuracy with evidence-based information''] else [])
       @ (if safety < 85 then [''Add appropriate safety warnings and contraindications''] else [])
       @ (if completeness < 75 then [''Include comprehensive differential diagnosis''] else [])"
    by (simp add: generate_recommendations_def Let_def)
  moreover have "generate_recommendations accuracy safety completeness = []
        \<longleftrightarrow> 80 \<le> accuracy \<and> 85 \<le> safety \<and> 75 \<le> completeness"
    by (auto simp: generate_recommendations_def Let_def)
  ultimately show ?thesis by blast
qed

subsection \<open>The unused argument\<close>

text \<open>
  Claim C10. The third argument \<open>expert_context\<close> is never read: for the same question and
  response, any two values of it (of any types, \<open>None\<close> included) give the same outcome.
\<close>

theorem expert_context_ignored:
  "evaluate_response self question response (c1 :: 'a option)
     = evaluate_response self question response (c2 :: 'b option)"
  by (simp add: evaluate_response_def)

subsection \<open>Totality and the neutral case\<close>

text \<open>
  Without any keyword match the loop of the completeness assessor adds nothing, and neither
  bonus nor penalty applies anywhere.
\<close>

lemma no_match_completeness:
  assumes "no_keyword_matches r"
  shows "assess_completeness init q r = Inr 0"
proof -
  from assms have g: "\<not> list_ex (\<lambda>(element_type, keywords).
                 list_ex (\<lambda>keyword. str_contains (str_lower keyword) (str_lower r)) keywords)
          (required_elements init)"
    and d: "\<not> list_ex (\<lambda>indicator. str_contains indicator (str_lower r))
            [''differential'', ''consider'', ''rule out'', ''possible causes'']"
    by (simp_all add: no_keyword_matches_def)
  from g have "spec_group_credit (required_elements init) r = 0"
    unfolding spec_group_credit_def init_def by simp
  moreover from d have "\<not> has_comprehensive_differential r"
    by (simp add: has_comprehensive_differential_def)
  then have "spec_differential_bonus r = 0"
    using has_comprehensive_differential_bonus [of r 0] by simp
  ultimately show ?thesis by (simp add: assess_completeness_eq)
qed

lemma no_match_evidence:
  assumes "no_keyword_matches r"
  shows "assess_evidence_quality r = 70"
  using assms by (simp add: no_keyword_matches_def assess_evidence_quality_def)

lemma no_match_accuracy:
  assumes "no_keyword_matches r"
  shows "assess_clinical_accuracy q r = 85"
  using assms by (simp add: no_keyword_matches_def assess_clinical_accuracy_def)

text \<open>
  Claim C7. For every question and response, the empty strings included, the evaluation
  returns a result and raises nothing; and when the response has no keyword match, the
  completeness score of the result is 0, its evidence quality 70 and its clinical accuracy 85.
\<close>

theorem evaluate_response_total:
  "\<exists>res. evaluate_response init question response expert_context = Inr res
     \<and> (no_keyword_matches response \<longrightarrow>
          completeness_score res = 0 \<and> evidence_quality res = 70 \<and> clinical_accuracy res = 85)"
proof -
  obtain s c m where h: "assess_safety init question response = Inr s" "0 \<le> s" "s \<le> 100"
    "assess_completeness init question response = Inr c" "0 \<le> c" "c \<le> 100"
    "identify_missing_elements init question response = Inr m"
    by (rule evaluate_response_init)
  have "no_keyword_matches response \<longrightarrow> c = 0"
    using no_match_completeness [of response question] h(4) by simp
  then show ?thesis
    using evaluate_response_expand [OF h(1) h(4) h(7), of expert_context]
      no_match_evidence [of response] no_match_accuracy [of response question]
    by simp
qed

text \<open>
  The whole result for an empty question and an empty response.
\<close>

lemma evaluate_response_empty: "evaluate_response init '''' '''' (None :: unit option) =
  Inr \<lparr> clinical_accuracy = 85, safety_score = 90, completeness_score = 0, evidence_quality = 70,
        overall_score = 67.5, risk_level = LOW, identified_errors = [],
        missing_elements = [''Missing differential diagnosis consideration''],
        safety_concerns = [],
        recommendations = [''Include comprehensive differential diagnosis''] \<rparr>"
  by code_simp

text \<open>
  The hypothesis of C7 holds for a neutral sentence, and the three scores are the base values.
\<close>

theorem evaluate_response_total_witness:
  "no_keyword_matches ''Drink water.''
   \<and> (\<exists>res. evaluate_response init ''What helps?'' ''Drink water.'' (None :: unit option) = Inr res
          \<and> completeness_score res = 0 \<and> evidence_quality res = 70 \<and> clinical_accuracy res = 85)"
proof -
  have n: "no_keyword_matches ''Drink water.''" by code_simp
  with evaluate_response_total [of "''What helps?''" "''Drink water.''" "None :: unit option"]
  show ?thesis by blast
qed

subsection \<open>The contraindicated-advice pattern\<close>

text \<open>
  A search for a literal word, ignoring case, is a substring test on the lowered text; a
  search for \<open>a.*b\<close> finds \<open>a\<close>, then \<open>b\<close> later on the same line.
\<close>

lemma search_lit: "search_from (lit k) s \<longleftrightarrow> str_contains (str_lower k) (str_lower s)"
proof
  assume "search_from (lit k) s"
  then obtain u rest where "s = u @ rest" "match_here (lit k @ []) rest"
    using search_from_iff by auto
  then obtain d w where "s = u @ d @ w" "str_lower d = str_lower k"
    using match_here_lit [of k "[]" rest] by auto
  then have "str_lower s = str_lower u @ str_lower k @ str_lower w"
    by (simp add: str_lower_append)
  then show "str_contains (str_lower k) (str_lower s)" using str_contains_iff by blast
next
  assume "str_contains (str_lower k) (str_lower s)"
  then obtain u' w' where "map char_lower s = u' @ (str_lower k @ w')"
    using str_contains_iff unfolding str_lower_def by auto
  then have "\<exists>u t. s = u @ t \<and> u' = map char_lower u \<and> str_lower k @ w' = map char_lower t"
    by (simp only: map_eq_append_conv)
  then obtain u t where 1: "s = u @ t" "map char_lower t = str_lower k @ w'" by auto
  from 1(2) have "\<exists>d w. t = d @ w \<and> str_lower k = map char_lower d \<and> w' = map char_lower w"
    by (simp only: map_eq_append_conv)
  then obtain d w where 2: "t = d @ w" "map char_lower d = str_lower k" by auto
  have "match_here (lit k @ []) (d @ w)"
    using match_here_lit [of k "[]" "d @ w"] 2 by (auto simp: str_lower_def)
  then show "search_from (lit k) s" using search_from_iff 1 2 by auto
qed

lemma search_lit_dotstar_lit:
  "search_from (lit a @ dot_star @ lit b) s \<longleftrightarrow>
     (\<exists>u d v p w. s = u @ d @ v @ p @ w \<and> str_lower d = str_lower a
        \<and> CHR 0x0A \<notin> set v \<and> str_lower p = str_lower b)"
proof
  assume "search_from (lit a @ dot_star @ lit b) s"
  then obtain u r1 where 1: "s = u @ r1" "match_here (lit a @ dot_star @ lit b) r1"
    using search_from_iff by blast
  then obtain d r2 where 2: "r1 = d @ r2" "str_lower d = str_lower a"
      "match_here (Star Any # (lit b @ [])) r2"
    using match_here_lit [of a "dot_star @ lit b" r1] by (auto simp: dot_star_def)
  then obtain v r3 where 3: "r2 = v @ r3" "list_all (atom_match Any) v" "match_here (lit b @ []) r3"
    using match_here_star [of Any "lit b @ []" r2] by blast
  then obtain p w where 4: "r3 = p @ w" "str_lower p = str_lower b"
    using match_here_lit [of b "[]" r3] by blast
  from 3(2) have "CHR 0x0A \<notin> set v" by (auto simp: list_all_iff)
  with 1 2 3 4 show "\<exists>u d v p w. s = u @ d @ v @ p @ w \<and> str_lower d = str_lower a
        \<and> CHR 0x0A \<notin> set v \<and> str_lower p = str_lower b" by blast
next
  assume "\<exists>u d v p w. s = u @ d @ v @ p @ w \<and> str_lower d = str_lower a
        \<and> CHR 0x0A \<notin> set v \<and> str_lower p = str_lower b"
  then obtain u d v p w where h: "s = u @ d @ v @ p @ w" "str_lower d = str_lower a"
        "CHR 0x0A \<notin> set v" "str_lower p = str_lower b" by blast
  have "match_here (lit b @ []) (p @ w)"
    using match_here_lit [of b "[]" "p @ w"] h(4) by auto
  moreover have "list_all (atom_match Any) v" using h(3) by (auto simp: list_all_iff)
  ultimately have "match_here (Star Any # (lit b @ [])) (v @ p @ w)"
    using match_here_star [of Any "lit b @ []" "v @ p @ w"] by blast
  then have "match_here (lit a @ dot_star @ lit b) (d @ v @ p @ w)"
    using match_here_lit [of a "dot_star @ lit b" "d @ v @ p @ w"] h(2)
    by (auto simp: dot_star_def)
  then show "search_from (lit a @ dot_star @ lit b) s"
    using search_from_iff h(1) by blast
qed

lemma lower_keywords:
  "str_lower ''aspirin'' = ''aspirin''" "str_lower ''ace inhibitor'' = ''ace inhibitor''"
  "str_lower ''pregnancy'' = ''pregnancy''" "str_lower ''diagnose'' = ''diagnose''"
  "str_lower ''diagnosis'' = ''diagnosis''" "str_lower ''cannot diagnose'' = ''cannot diagnose''"
  by code_simp+

lemma contains_contraindicated_advice_iff:
  "contains_contraindicated_advice response \<longleftrightarrow>
     (\<exists>u d v p w. response = u @ d @ v @ p @ w
        \<and> (str_lower d = ''aspirin'' \<or> str_lower d = ''ace inhibitor'')
        \<and> CHR 0x0A \<notin> set v \<and> str_lower p = ''pregnancy'')"
  unfolding contains_contraindicated_advice_def Let_def re_search_def
  by (simp add: search_lit_dotstar_lit lower_keywords) blast

text \<open>
  Claim C4, as amended. The penalty of 20 points is applied to every response in which a drug
  name (\<open>aspirin\<close> or \<open>ace inhibitor\<close>, in any letter case) occurs and \<open>pregnancy\<close> (in any
  letter case) occurs after it with no line break between the two: the accuracy score is then
  \<open>85 - 20\<close>, less 25 for a dosage match, plus 10 for an evidence reference.
\<close>

theorem contraindicated_penalty_ordered:
  assumes "response = u @ d @ v @ p @ w"
    and "str_lower d = ''aspirin'' \<or> str_lower d = ''ace inhibitor''"
    and "CHR 0x0A \<notin> set v"
    and "str_lower p = ''pregnancy''"
  shows "contains_contraindicated_advice response
     \<and> assess_clinical_accuracy question response
         = 85 - 20 - (if contains_dosage_errors response then 25 else 0)
             + (if contains_evidence_references response then 10 else 0)"
proof -
  have "contains_contraindicated_advice response"
    using assms contains_contraindicated_advice_iff by blast
  then show ?thesis
    by (simp add: assess_clinical_accuracy_def contains_outdated_information_def Let_def)
qed

text \<open>
  The hypotheses of the amended C4 hold for a response that names aspirin before pregnancy.
\<close>

theorem contraindicated_penalty_ordered_witness:
  "''Aspirin is safe in pregnancy'' = [] @ ''Aspirin'' @ '' is safe in '' @ ''pregnancy'' @ []
   \<and> str_lower ''Aspirin'' = ''aspirin''
   \<and> CHR 0x0A \<notin> set '' is safe in ''
   \<and> str_lower ''pregnancy'' = ''pregnancy''
   \<and> contains_contraindicated_advice ''Aspirin is safe in pregnancy''
   \<and> assess_clinical_accuracy ''Is aspirin safe?'' ''Aspirin is safe in pregnancy'' = 65"
proof -
  have 1: "''Aspirin is safe in pregnancy'' = [] @ ''Aspirin'' @ '' is safe in '' @ ''pregnancy'' @ []"
    by simp
  have 2: "str_lower ''Aspirin'' = ''aspirin''" by code_simp
  have 3: "CHR 0x0A \<notin> set '' is safe in ''" by simp
  have 4: "str_lower ''pregnancy'' = ''pregnancy''" by code_simp
  have 5: "\<not> contains_dosage_errors ''Aspirin is safe in pregnancy''" by code_simp
  have 6: "\<not> contains_evidence_references ''Aspirin is safe in pregnancy''" by code_simp
  from contraindicated_penalty_ordered [OF 1 disjI1 [OF 2] 3 4, of "''Is aspirin safe?''"] 5 6
  have "contains_contraindicated_advice ''Aspirin is safe in pregnancy''
     \<and> assess_clinical_accuracy ''Is aspirin safe?'' ''Aspirin is safe in pregnancy'' = 65"
    by simp
  with 1 2 3 4 show ?thesis by blast
qed

text \<open>
  Claim C4 as stated fails: a response that contains both \<open>aspirin\<close> and \<open>pregnancy\<close>, with
  \<open>pregnancy\<close> first, does not match the pattern and keeps the base accuracy of 85.
\<close>

theorem contraindicated_order_counterexample:
  "str_contains ''aspirin'' ''pregnancy and aspirin''
   \<and> str_contains ''pregnancy'' ''pregnancy and aspirin''
   \<and> \<not> contains_contraindicated_advice ''pregnancy and aspirin''
   \<and> assess_clinical_accuracy ''Is aspirin safe?'' ''pregnancy and aspirin'' = 85"
  by code_simp

text \<open>
  A line break between the drug name and \<open>pregnancy\<close> prevents the match as well, since
  \<open>.\<close> does not match a newline.
\<close>

lemma contraindicated_newline_example:
  "\<not> contains_contraindicated_advice (''aspirin'' @ [CHR 0x0A] @ ''pregnancy'')"
  by code_simp

subsection \<open>The errors extractor\<close>

text \<open>
  The definitive-diagnosis flag is in the list exactly when the second check of the extractor
  fires, since the other flag is a different text.
\<close>

lemma flags_distinct: "absolute_statement_flag \<noteq> definitive_diagnosis_flag"
  by (simp add: absolute_statement_flag_def definitive_diagnosis_flag_def)

lemma re_search_diagnosis:
  "re_search [lit ''diagnose'', lit ''diagnosis''] response \<longleftrightarrow>
     str_contains ''diagnose'' (str_lower response) \<or> str_contains ''diagnosis'' (str_lower response)"
  by (simp add: re_search_def search_lit lower_keywords)

lemma definitive_diagnosis_flag_iff:
  "definitive_diagnosis_flag \<in> set (identify_errors response) \<longleftrightarrow>
     (str_contains ''diagnose'' (str_lower response) \<or> str_contains ''diagnosis'' (str_lower response))
     \<and> \<not> str_contains ''cannot diagnose'' (str_lower response)"
  unfolding identify_errors_def Let_def re_search_diagnosis
  using flags_distinct by auto

text \<open>
  Claim C9. The errors extractor flags a response that contains \<open>diagnose\<close> or \<open>diagnosis\<close>
  (in any letter case) unless the response contains \<open>cannot diagnose\<close> (in any letter case):
  for every response that contains \<open>cannot diagnose\<close> and the word \<open>diagnosis\<close>, the list of
  identified errors does not contain the definitive-diagnosis flag. The identified errors of an
  evaluation result are the extractor's list.
\<close>

theorem diagnosis_flag_suppressed:
  "(definitive_diagnosis_flag \<in> set (identify_errors response) \<longleftrightarrow>
      (str_contains ''diagnose'' (str_lower response) \<or> str_contains ''diagnosis'' (str_lower response))
      \<and> \<not> str_contains ''cannot diagnose'' (str_lower response))
   \<and> (str_contains ''cannot diagnose'' response \<and> str_contains ''diagnosis'' response
        \<longrightarrow> definitive_diagnosis_flag \<notin> set (identify_errors response))
   \<and> (\<exists>res. evaluate_response init question response expert_context = Inr res
         \<and> identified_errors res = identify_errors response)"
proof -
  obtain s c m where h: "assess_safety init question response = Inr s" "0 \<le> s" "s \<le> 100"
    "assess_completeness init question response = Inr c" "0 \<le> c" "c \<le> 100"
    "identify_missing_elements init question response = Inr m"
    by (rule evaluate_response_init)
  have "\<exists>res. evaluate_response init question response expert_context = Inr res
         \<and> identified_errors res = identify_errors response"
    using evaluate_response_expand [OF h(1) h(4) h(7), of expert_context] by simp
  moreover have "str_contains ''cannot diagnose'' response
       \<longrightarrow> definitive_diagnosis_flag \<notin> set (identify_errors response)"
    using str_contains_lower [of "''cannot diagnose''" response]
    by (auto simp: definitive_diagnosis_flag_iff lower_keywords)
  ultimately show ?thesis using definitive_diagnosis_flag_iff by blast
qed

text \<open>
  The hypothesis of C9 holds for a response with the disclaimer and the word \<open>diagnosis\<close>.
\<close>

theorem diagnosis_flag_suppressed_witness:
  "str_contains ''cannot diagnose'' ''I cannot diagnose this; a diagnosis needs an exam.''
   \<and> str_contains ''diagnosis'' ''I cannot diagnose this; a diagnosis needs an exam.''
   \<and> definitive_diagnosis_flag
        \<notin> set (identify_errors ''I cannot diagnose this; a diagnosis needs an exam.'')"
proof -
  have 1: "str_contains ''cannot diagnose'' ''I cannot diagnose this; a diagnosis needs an exam.''"
    by code_simp
  have 2: "str_contains ''diagnosis'' ''I cannot diagnose this; a diagnosis needs an exam.''"
    by code_simp
  from diagnosis_flag_suppressed
         [of "''I cannot diagnose this; a diagnosis needs an exam.''" "''What do I have?''"
             "None :: unit option"] 1 2
  show ?thesis by blast
qed

subsection \<open>Completeness\<close>

text \<open>
  Claim C8. The completeness score starts at 0, gains \<open>100 / groupCount\<close> points once for
  every group of required elements with at least one synonym in the response, gains 10 points
  when at least two distinct indicator phrases of a differential diagnosis occur, and is capped
  at 100 after the bonus: for a response that matches all four groups and two indicators the
  sum is 110 before the cap and the score 100.
\<close>

theorem completeness_score_formula:
  "assess_completeness self question response
     = Inr (spec_completeness (required_elements self) response)
   \<and> spec_group_credit (required_elements init)
         ''Consider the differential, then examination, a blood test and treatment.'' = 100
   \<and> spec_differential_bonus
         ''Consider the differential, then examination, a blood test and treatment.'' = 10
   \<and> assess_completeness init question
         ''Consider the differential, then examination, a blood test and treatment.'' = Inr 100"
proof -
  have g: "spec_group_credit (required_elements init)
         ''Consider the differential, then examination, a blood test and treatment.'' = 100"
    by code_simp
  have "has_comprehensive_differential
         ''Consider the differential, then examination, a blood test and treatment.''"
    by code_simp
  then have d: "spec_differential_bonus
         ''Consider the differential, then examination, a blood test and treatment.'' = 10"
    using has_comprehensive_differential_bonus
       [of "''Consider the differential, then examination, a blood test and treatment.''" 0]
    by simp
  show ?thesis using g d by (simp add: assess_completeness_eq spec_completeness_def)
qed

end
